theory Spec2Isabelle
  imports Complex_Main
begin

section \<open>Transmission line reflection simulator with quarter-wave matching (app.py)\<close>

text \<open>
  The program is a single script. Each top-level variable of the script is a function of
  the widget inputs it depends on: \<open>fc\<close> (GHz), \<open>Z0\<close>, \<open>er\<close>, \<open>RL\<close>, \<open>XL\<close> and the
  line length. Python floats and numpy complex numbers are read as the real and complex
  numbers, so rounding is not part of the model. The two places where the script leaves
  real arithmetic are kept: Python's complex division raises \<open>ZeroDivisionError\<close> on a
  zero divisor, and numpy's float division returns an infinity or a NaN there.
\<close>

subsection \<open>Python and numpy arithmetic\<close>

datatype py_error = ZeroDivisionError

text \<open>Python: \<open>a / b\<close> on \<open>complex\<close> operands.\<close>

definition py_complex_div :: "complex \<Rightarrow> complex \<Rightarrow> py_error + complex" where
  "py_complex_div a b = (if b = 0 then Inl ZeroDivisionError else Inr (a / b))"

text \<open>
  numpy: \<open>x / y\<close> on float arrays, element by element. Nothing is raised on a zero
  divisor: the element is \<open>inf\<close>, \<open>-inf\<close> or \<open>nan\<close>, and the floating-point error
  handler reports "divide by zero encountered" (for a nonzero dividend).
\<close>

datatype np_float = Finite real | PInf | NInf | NaN

definition np_divide :: "real \<Rightarrow> real \<Rightarrow> np_float" where
  "np_divide x y =
     (if y \<noteq> 0 then Finite (x / y)
      else if 0 < x then PInf
      else if x < 0 then NInf
      else NaN)"

definition divide_by_zero_encountered :: "real \<Rightarrow> real \<Rightarrow> bool" where
  "divide_by_zero_encountered x y = (y = 0 \<and> x \<noteq> 0)"

text \<open>numpy: \<open>linspace(start, stop, num)\<close>, both end points included.\<close>

definition linspace :: "real \<Rightarrow> real \<Rightarrow> nat \<Rightarrow> real list" where
  "linspace start stop num =
     map (\<lambda>i. start + real i * ((stop - start) / real (num - 1))) [0..<num]"

subsection \<open>Inputs (lines 11-34)\<close>

text \<open>
  The ranges that the \<open>number_input\<close> widgets enforce on what the script receives.
\<close>

definition widget_ranges :: "real \<Rightarrow> real \<Rightarrow> real \<Rightarrow> real \<Rightarrow> real \<Rightarrow> bool" where
  "widget_ranges fc Z0 er RL XL =
     (1 / 10 \<le> fc \<and> fc \<le> 100 \<and> 1 \<le> Z0 \<and> Z0 \<le> 500 \<and> 1 \<le> er \<and> er \<le> 20 \<and>
      1 / 10 \<le> RL \<and> RL \<le> 1000 \<and> - 500 \<le> XL \<and> XL \<le> 500)"

definition vp :: "real \<Rightarrow> real" where
  "vp er = 300000000 / sqrt er"

definition lambda_c :: "real \<Rightarrow> real \<Rightarrow> real" where
  "lambda_c fc er = vp er / (fc * 1000000000)"

datatype choice = Length_in_meters real | Fraction_of_lambda real

fun length_m :: "choice \<Rightarrow> real \<Rightarrow> real \<Rightarrow> real" where
  "length_m (Length_in_meters l) fc er = l"
| "length_m (Fraction_of_lambda fraction) fc er = fraction * lambda_c fc er"

subsection \<open>Frequency range (lines 37-40)\<close>

text \<open>
  scikit-rf, \<open>Frequency(start, stop, npoints, unit='GHz')\<close>: the attribute \<open>f\<close> is the
  linear sweep in Hz, \<open>linspace(start * 1e9, stop * 1e9, npoints)\<close>.
\<close>

definition Frequency_f :: "real \<Rightarrow> real \<Rightarrow> nat \<Rightarrow> real list" where
  "Frequency_f start stop npoints =
     linspace (1000000000 * start) (1000000000 * stop) npoints"

definition f :: "real \<Rightarrow> real list" where
  "f fc = Frequency_f (fc - 1) (fc + 1) 501"

definition beta :: "real \<Rightarrow> real \<Rightarrow> real list" where
  "beta fc er = map (\<lambda>x. 2 * pi * x / vp er) (f fc)"

definition gamma :: "real \<Rightarrow> real \<Rightarrow> complex list" where
  "gamma fc er = map (\<lambda>b. \<i> * complex_of_real b) (beta fc er)"

definition center_idx :: "real \<Rightarrow> nat" where
  "center_idx fc = length (f fc) div 2"

subsection \<open>Networks of scikit-rf\<close>

text \<open>
  A network is its scattering parameters at every frequency of the sweep together with
  the reference impedance of its ports. Only the two shapes of the script occur: a
  two-port line (both ports at the same impedance) and a one-port termination.
\<close>

record smat =
  S11 :: complex
  S12 :: complex
  S21 :: complex
  S22 :: complex

record two_port =
  s2 :: "smat list"
  z02 :: real

record one_port =
  s :: "complex list"
  z0 :: real

text \<open>
  \<open>DefinedGammaZ0(freq, gamma, z0).line(d, unit='m')\<close>: a matched line of electrical
  length \<open>theta = gamma * d\<close>, referenced to the characteristic impedance \<open>z0\<close> of the
  medium (no \<open>z0_port\<close> is given): \<open>s11 = s22 = 0\<close>, \<open>s21 = s12 = exp(-theta)\<close>.
\<close>

definition line_s :: "complex \<Rightarrow> real \<Rightarrow> smat" where
  "line_s g d = \<lparr>S11 = 0, S12 = exp (- (g * complex_of_real d)),
                 S21 = exp (- (g * complex_of_real d)), S22 = 0\<rparr>"

definition DefinedGammaZ0_line :: "complex list \<Rightarrow> real \<Rightarrow> real \<Rightarrow> two_port" where
  "DefinedGammaZ0_line gam z d = \<lparr>s2 = map (\<lambda>g. line_s g d) gam, z02 = z\<rparr>"

text \<open>
  \<open>impedance_mismatch(z1, z2)\<close>: the junction between a port at \<open>z1\<close> and a port at
  \<open>z2\<close>, for real impedances.
\<close>

definition impedance_mismatch :: "real \<Rightarrow> real \<Rightarrow> smat" where
  "impedance_mismatch z1 z2 =
     (let g = complex_of_real ((z2 - z1) / (z2 + z1)) in
      \<lparr>S11 = g, S12 = (1 - g) * complex_of_real (sqrt (z2 / z1)),
       S21 = (1 + g) * complex_of_real (sqrt (z1 / z2)), S22 = - g\<rparr>)"

text \<open>
  \<open>connect_s\<close> at one frequency: port 1 of a two-port joined to port 0 of a second
  two-port, and port 1 of a two-port joined to a one-port.
\<close>

definition connect_s_22 :: "smat \<Rightarrow> smat \<Rightarrow> smat" where
  "connect_s_22 A B =
     \<lparr>S11 = S11 A + S12 A * S11 B * S21 A / (1 - S22 A * S11 B),
      S12 = S12 A * S12 B / (1 - S22 A * S11 B),
      S21 = S21 A * S21 B / (1 - S22 A * S11 B),
      S22 = S22 B + S21 B * S22 A * S12 B / (1 - S22 A * S11 B)\<rparr>"

definition connect_s_21 :: "smat \<Rightarrow> complex \<Rightarrow> complex" where
  "connect_s_21 A g = S11 A + S12 A * g * S21 A / (1 - S22 A * g)"

text \<open>
  \<open>ntwkA ** ntwkB\<close> (cascade, \<open>connect(ntwkA, 1, ntwkB, 0)\<close>): when the joined ports have
  different reference impedances an impedance mismatch is connected between them first.
  The port that remains is port 0 of \<open>ntwkA\<close>, with its reference impedance.
\<close>

definition cascade :: "two_port \<Rightarrow> one_port \<Rightarrow> one_port" where
  "cascade A B =
     (let A' = (if z02 A = z0 B then s2 A
                else map (\<lambda>a. connect_s_22 a (impedance_mismatch (z02 A) (z0 B))) (s2 A))
      in \<lparr>s = map2 connect_s_21 A' (s B), z0 = z02 A\<rparr>)"

subsection \<open>Line and load (lines 43-52)\<close>

definition ZL :: "real \<Rightarrow> real \<Rightarrow> complex" where
  "ZL RL XL = complex_of_real RL + \<i> * complex_of_real XL"

definition line :: "real \<Rightarrow> real \<Rightarrow> real \<Rightarrow> real \<Rightarrow> two_port" where
  "line fc Z0 er l = DefinedGammaZ0_line (gamma fc er) Z0 l"

definition s11 :: "real \<Rightarrow> real \<Rightarrow> real \<Rightarrow> py_error + complex" where
  "s11 Z0 RL XL =
     py_complex_div (ZL RL XL - complex_of_real Z0) (ZL RL XL + complex_of_real Z0)"

definition load :: "real \<Rightarrow> real \<Rightarrow> real \<Rightarrow> real \<Rightarrow> py_error + one_port" where
  "load fc Z0 RL XL =
     (case s11 Z0 RL XL of
        Inl e \<Rightarrow> Inl e
      | Inr g \<Rightarrow> Inr \<lparr>s = replicate (length (f fc)) g, z0 = Z0\<rparr>)"

definition network_before ::
  "real \<Rightarrow> real \<Rightarrow> real \<Rightarrow> real \<Rightarrow> real \<Rightarrow> real \<Rightarrow> py_error + one_port" where
  "network_before fc Z0 er RL XL l =
     (case load fc Z0 RL XL of
        Inl e \<Rightarrow> Inl e
      | Inr ld \<Rightarrow> Inr (cascade (line fc Z0 er l) ld))"

subsection \<open>Parameters before matching (lines 55-56)\<close>

definition VSWR :: "complex \<Rightarrow> np_float" where
  "VSWR g = np_divide (1 + cmod g) (1 - cmod g)"

definition Gamma_before ::
  "real \<Rightarrow> real \<Rightarrow> real \<Rightarrow> real \<Rightarrow> real \<Rightarrow> real \<Rightarrow> py_error + complex list" where
  "Gamma_before fc Z0 er RL XL l =
     (case network_before fc Z0 er RL XL l of Inl e \<Rightarrow> Inl e | Inr n \<Rightarrow> Inr (s n))"

definition VSWR_before ::
  "real \<Rightarrow> real \<Rightarrow> real \<Rightarrow> real \<Rightarrow> real \<Rightarrow> real \<Rightarrow> py_error + np_float list" where
  "VSWR_before fc Z0 er RL XL l =
     (case Gamma_before fc Z0 er RL XL l of Inl e \<Rightarrow> Inl e | Inr G \<Rightarrow> Inr (map VSWR G))"

subsection \<open>Quarter-wave transformer (lines 59-60, 80-85)\<close>

definition Zt :: "real \<Rightarrow> real \<Rightarrow> real \<Rightarrow> real" where
  "Zt Z0 RL XL = sqrt (Z0 * cmod (ZL RL XL))"

definition lambda4_length :: "real \<Rightarrow> real \<Rightarrow> real" where
  "lambda4_length fc er = lambda_c fc er / 4"

definition transformer :: "real \<Rightarrow> real \<Rightarrow> real \<Rightarrow> real \<Rightarrow> real \<Rightarrow> two_port" where
  "transformer fc Z0 er RL XL =
     DefinedGammaZ0_line (gamma fc er) (Zt Z0 RL XL) (lambda4_length fc er)"

definition network_after ::
  "real \<Rightarrow> real \<Rightarrow> real \<Rightarrow> real \<Rightarrow> real \<Rightarrow> py_error + one_port" where
  "network_after fc Z0 er RL XL =
     (case load fc Z0 RL XL of
        Inl e \<Rightarrow> Inl e
      | Inr ld \<Rightarrow> Inr (cascade (transformer fc Z0 er RL XL) ld))"

definition Gamma_after ::
  "real \<Rightarrow> real \<Rightarrow> real \<Rightarrow> real \<Rightarrow> real \<Rightarrow> py_error + complex list" where
  "Gamma_after fc Z0 er RL XL =
     (case network_after fc Z0 er RL XL of Inl e \<Rightarrow> Inl e | Inr n \<Rightarrow> Inr (s n))"

definition VSWR_after ::
  "real \<Rightarrow> real \<Rightarrow> real \<Rightarrow> real \<Rightarrow> real \<Rightarrow> py_error + np_float list" where
  "VSWR_after fc Z0 er RL XL =
     (case Gamma_after fc Z0 er RL XL of Inl e \<Rightarrow> Inl e | Inr G \<Rightarrow> Inr (map VSWR G))"

section \<open>Auxiliary facts\<close>

text \<open>
  The sweep and the propagation constant sample by sample, the closed forms of the two
  cascades (line with load at equal reference impedance; transformer, junction and load),
  and the real inequalities behind the comparison of the two magnitudes.
\<close>

lemma length_linspace: "length (linspace a b n) = n"
  by (simp add: linspace_def)

lemma nth_linspace: "i < n \<Longrightarrow> linspace a b n ! i = a + real i * ((b - a) / real (n - 1))"
  by (simp add: linspace_def)

lemma length_f: "length (f fc) = 501"
  by (simp add: f_def Frequency_f_def length_linspace)

lemma nth_f: "i < 501 \<Longrightarrow> f fc ! i = 1000000000 * (fc - 1) + 4000000 * real i"
  by (simp add: f_def Frequency_f_def nth_linspace algebra_simps)

lemma length_beta: "length (beta fc er) = 501"
  by (simp add: beta_def length_f)

lemma length_gamma: "length (gamma fc er) = 501"
  by (simp add: gamma_def length_beta)

lemma nth_gamma: "i < 501 \<Longrightarrow> gamma fc er ! i = \<i> * complex_of_real (2 * pi * (f fc ! i) / vp er)"
  by (simp add: gamma_def beta_def length_f)

lemma center_idx_eq: "center_idx fc = 250"
  by (simp add: center_idx_def length_f)

lemma f_center: "f fc ! 250 = 1000000000 * fc"
  by (simp add: nth_f)

lemma ZL_plus_nonzero: "0 < RL + Z0 \<Longrightarrow> ZL RL XL + complex_of_real Z0 \<noteq> 0"
proof
  assume pos: "0 < RL + Z0" and z: "ZL RL XL + complex_of_real Z0 = 0"
  have "Re (ZL RL XL + complex_of_real Z0) = RL + Z0" by (simp add: ZL_def)
  with z pos show False by simp
qed

lemma s11_Inr: "ZL RL XL + complex_of_real Z0 \<noteq> 0 \<Longrightarrow>
  s11 Z0 RL XL = Inr ((ZL RL XL - complex_of_real Z0) / (ZL RL XL + complex_of_real Z0))"
  by (simp add: s11_def py_complex_div_def)

lemma connect_line: "connect_s_21 (line_s g d) x = x * exp (- 2 * (g * complex_of_real d))"
proof -
  have "exp (- (g * complex_of_real d)) * exp (- (g * complex_of_real d)) = exp (- 2 * (g * complex_of_real d))"
    by (simp add: exp_add [symmetric])
  then show ?thesis by (simp add: connect_s_21_def line_s_def mult.assoc mult.left_commute)
qed

lemma map2_replicate: "length xs = n \<Longrightarrow> map2 h xs (replicate n y) = map (\<lambda>x. h x y) xs"
  by (induction xs arbitrary: n) auto

lemma Gamma_before_eq:
  assumes "s11 Z0 RL XL = Inr g"
  shows "Gamma_before fc Z0 er RL XL l =
           Inr (map (\<lambda>gm. g * exp (- 2 * (gm * complex_of_real l))) (gamma fc er))"
  using assms
  by (simp add: Gamma_before_def network_before_def load_def cascade_def line_def
      DefinedGammaZ0_line_def length_f length_gamma map2_replicate connect_line o_def)

lemma connect_line_junction:
  "connect_s_21 (connect_s_22 (line_s g d) M) x =
     exp (- 2 * (g * complex_of_real d)) * (S11 M + S12 M * S21 M * x / (1 - S22 M * x))"
proof -
  have e: "exp (- (g * complex_of_real d)) * exp (- (g * complex_of_real d)) = exp (- 2 * (g * complex_of_real d))"
    by (simp add: exp_add [symmetric])
  have "connect_s_21 (connect_s_22 (line_s g d) M) x =
      (exp (- (g * complex_of_real d)) * exp (- (g * complex_of_real d))) * S11 M
      + (exp (- (g * complex_of_real d)) * exp (- (g * complex_of_real d))) * (S12 M * S21 M * x / (1 - S22 M * x))"
    by (simp add: connect_s_21_def connect_s_22_def line_s_def)
  then show ?thesis unfolding e by (simp add: algebra_simps)
qed

lemma mismatch_product:
  assumes "0 < z1" "0 < z2"
  shows "S12 (impedance_mismatch z1 z2) * S21 (impedance_mismatch z1 z2) =
           1 - (complex_of_real ((z2 - z1) / (z2 + z1)))\<^sup>2"
proof -
  have "sqrt (z2 / z1) * sqrt (z1 / z2) = 1"
    using assms by (simp add: real_sqrt_mult [symmetric])
  then have "complex_of_real (sqrt (z2 / z1)) * complex_of_real (sqrt (z1 / z2)) = 1"
    by (metis of_real_1 of_real_mult)
  then have "((1 - complex_of_real ((z2 - z1) / (z2 + z1))) * complex_of_real (sqrt (z2 / z1))) *
        ((1 + complex_of_real ((z2 - z1) / (z2 + z1))) * complex_of_real (sqrt (z1 / z2)))
        = (1 - complex_of_real ((z2 - z1) / (z2 + z1))) * (1 + complex_of_real ((z2 - z1) / (z2 + z1)))"
    by (simp add: mult.assoc mult.left_commute)
  then show ?thesis
    by (simp add: impedance_mismatch_def Let_def power2_eq_square algebra_simps)
qed

lemma junction_load:
  fixes a t z :: complex
  assumes "a \<noteq> 0" "a + t \<noteq> 0" "z + a \<noteq> 0" "z + t \<noteq> 0"
  shows "(a - t) / (a + t) + (1 - ((a - t) / (a + t))\<^sup>2) * ((z - a) / (z + a)) /
            (1 - (- ((a - t) / (a + t))) * ((z - a) / (z + a))) = (z - t) / (z + t)"
proof -
  have d: "1 - (- ((a - t) / (a + t))) * ((z - a) / (z + a)) = 2 * a * (z + t) / ((a + t) * (z + a))"
    using assms(2,3) by (simp add: divide_simps) (simp add: algebra_simps)
  have n: "1 - ((a - t) / (a + t))\<^sup>2 = 4 * a * t / ((a + t) * (a + t))"
    using assms(2) by (simp add: divide_simps power2_eq_square) (simp add: algebra_simps)
  have "t * 2 + z * 2 = 2 * (z + t)" by simp
  with assms(4) have tz: "t * 2 + z * 2 \<noteq> 0" by (metis mult_eq_0_iff zero_neq_numeral)
  have "(a - t) / (a + t) + (4 * a * t / ((a + t) * (a + t))) * ((z - a) / (z + a)) /
            (2 * a * (z + t) / ((a + t) * (z + a))) = (z - t) / (z + t)"
    using assms tz by (simp add: divide_simps) (simp add: algebra_simps)
  then show ?thesis unfolding d n .
qed

lemma Re_ZL [simp]: "Re (ZL RL XL) = RL" and Im_ZL [simp]: "Im (ZL RL XL) = XL"
  by (simp_all add: ZL_def)

lemma ZL_nonzero: "0 < RL \<Longrightarrow> ZL RL XL \<noteq> 0"
  by (metis Re_ZL less_irrefl zero_complex.simps(1))

lemma Zt_pos: "0 < Z0 \<Longrightarrow> 0 < RL \<Longrightarrow> 0 < Zt Z0 RL XL"
  by (simp add: Zt_def ZL_nonzero)

lemma after_element:
  assumes "0 < Z0" "0 < RL"
  shows "connect_s_21 (connect_s_22 (line_s gm d) (impedance_mismatch (Zt Z0 RL XL) Z0))
           ((ZL RL XL - complex_of_real Z0) / (ZL RL XL + complex_of_real Z0)) =
         exp (- 2 * (gm * complex_of_real d)) *
           ((ZL RL XL - complex_of_real (Zt Z0 RL XL)) / (ZL RL XL + complex_of_real (Zt Z0 RL XL)))"
proof -
  define a where "a = complex_of_real Z0"
  define t where "t = complex_of_real (Zt Z0 RL XL)"
  define z where "z = ZL RL XL"
  have tpos: "0 < Zt Z0 RL XL" using assms by (rule Zt_pos)
  have a0: "a \<noteq> 0" using assms by (simp add: a_def)
  have "Z0 + Zt Z0 RL XL \<noteq> 0" using assms tpos by simp
  then have at: "a + t \<noteq> 0" unfolding a_def t_def by (metis of_real_add of_real_eq_0_iff)
  have za: "z + a \<noteq> 0" unfolding z_def a_def using assms by (intro ZL_plus_nonzero) simp
  have zt: "z + t \<noteq> 0" unfolding z_def t_def using assms tpos by (intro ZL_plus_nonzero) simp
  have g: "complex_of_real ((Z0 - Zt Z0 RL XL) / (Z0 + Zt Z0 RL XL)) = (a - t) / (a + t)"
    by (simp add: a_def t_def)
  have M11: "S11 (impedance_mismatch (Zt Z0 RL XL) Z0) = (a - t) / (a + t)"
    and M22: "S22 (impedance_mismatch (Zt Z0 RL XL) Z0) = - ((a - t) / (a + t))"
    using g by (simp_all add: impedance_mismatch_def Let_def)
  have M12: "S12 (impedance_mismatch (Zt Z0 RL XL) Z0) * S21 (impedance_mismatch (Zt Z0 RL XL) Z0)
        = 1 - ((a - t) / (a + t))\<^sup>2"
    using mismatch_product [OF tpos assms(1)] g by simp
  have "S11 (impedance_mismatch (Zt Z0 RL XL) Z0) +
        S12 (impedance_mismatch (Zt Z0 RL XL) Z0) * S21 (impedance_mismatch (Zt Z0 RL XL) Z0) *
          ((z - a) / (z + a)) / (1 - S22 (impedance_mismatch (Zt Z0 RL XL) Z0) * ((z - a) / (z + a)))
        = (z - t) / (z + t)"
    unfolding M11 M22 M12 using junction_load [OF a0 at za zt] .
  then show ?thesis
    unfolding connect_line_junction a_def t_def z_def by simp
qed

lemma Gamma_after_eq:
  assumes "0 < Z0" "0 < RL"
  shows "Gamma_after fc Z0 er RL XL =
     Inr (map (\<lambda>gm. exp (- 2 * (gm * complex_of_real (lambda4_length fc er))) *
           ((ZL RL XL - complex_of_real (Zt Z0 RL XL)) / (ZL RL XL + complex_of_real (Zt Z0 RL XL))))
        (gamma fc er))"
proof -
  have s: "s11 Z0 RL XL = Inr ((ZL RL XL - complex_of_real Z0) / (ZL RL XL + complex_of_real Z0))"
    using assms by (intro s11_Inr ZL_plus_nonzero) simp
  show ?thesis
  proof (cases "Zt Z0 RL XL = Z0")
    case True
    then show ?thesis
      using s by (simp add: Gamma_after_def network_after_def load_def cascade_def transformer_def
          DefinedGammaZ0_line_def length_f length_gamma map2_replicate connect_line o_def mult.commute)
  next
    case False
    then show ?thesis
      using s after_element [OF assms]
      by (simp add: Gamma_after_def network_after_def load_def cascade_def transformer_def
          DefinedGammaZ0_line_def length_f length_gamma map2_replicate o_def)
  qed
qed

lemma cmod_rotation: "cmod (exp (- 2 * (\<i> * complex_of_real b * complex_of_real d))) = 1"
  by (simp add: norm_exp_eq_Re)

lemma quarter_wave:
  assumes "0 < fc" "0 < er"
  shows "gamma fc er ! 250 * complex_of_real (lambda4_length fc er) = \<i> * complex_of_real (pi / 2)"
proof -
  have v: "vp er \<noteq> 0" using assms by (simp add: vp_def)
  have n: "(250::nat) < 501" by simp
  have "2 * pi * (1000000000 * fc) / vp er * (vp er / (fc * 1000000000) / 4) = pi / 2"
    using v assms by (simp add: field_simps)
  then have "2 * pi * (f fc ! 250) / vp er * lambda4_length fc er = pi / 2"
    unfolding f_center lambda4_length_def lambda_c_def .
  then have c: "complex_of_real (2 * pi * (f fc ! 250) / vp er) * complex_of_real (lambda4_length fc er)
      = complex_of_real (pi / 2)"
    by (metis of_real_mult)
  have "gamma fc er ! 250 * complex_of_real (lambda4_length fc er) =
      \<i> * (complex_of_real (2 * pi * (f fc ! 250) / vp er) * complex_of_real (lambda4_length fc er))"
    unfolding nth_gamma [of 250 fc er, OF n] by (rule mult.assoc)
  then show ?thesis unfolding c .
qed

lemma quarter_wave_rotation:
  assumes "0 < fc" "0 < er"
  shows "exp (- 2 * (gamma fc er ! 250 * complex_of_real (lambda4_length fc er))) = - 1"
proof -
  have "- 2 * (\<i> * complex_of_real (pi / 2)) = - (\<i> * complex_of_real pi)" by simp
  then show ?thesis
    unfolding quarter_wave [OF assms] by (simp add: exp_minus)
qed

lemma sorted_f: "sorted_wrt (<) (f fc)"
  by (simp add: sorted_wrt_iff_nth_less length_f nth_f)

lemma s11_valid:
  assumes "0 < RL" "0 < Z0"
  shows "s11 Z0 RL XL = Inr ((ZL RL XL - complex_of_real Z0) / (ZL RL XL + complex_of_real Z0))"
  using assms by (intro s11_Inr ZL_plus_nonzero) simp

lemma Gamma_before_nth:
  assumes "s11 Z0 RL XL = Inr g" "i < 501"
  shows "\<exists>G. Gamma_before fc Z0 er RL XL l = Inr G \<and> length G = 501 \<and>
           G ! i = g * exp (- 2 * (\<i> * complex_of_real (2 * pi * (f fc ! i) / vp er) * complex_of_real l))"
  using assms by (simp add: Gamma_before_eq length_gamma nth_gamma)

lemma cmod_Gamma_L_real:
  "cmod ((ZL RL 0 - complex_of_real Z0) / (ZL RL 0 + complex_of_real Z0)) = \<bar>RL - Z0\<bar> / \<bar>RL + Z0\<bar>"
proof -
  have "ZL RL 0 - complex_of_real Z0 = complex_of_real (RL - Z0)"
    and "ZL RL 0 + complex_of_real Z0 = complex_of_real (RL + Z0)"
    by (simp_all add: ZL_def)
  then show ?thesis by (simp only: norm_divide norm_of_real)
qed

lemma cmod_before:
  "cmod (g * exp (- 2 * (\<i> * complex_of_real b * complex_of_real d))) = cmod g"
  by (simp only: norm_mult cmod_rotation mult_1_right)

lemma VSWR_zero: "VSWR 0 = Finite 1"
  by (simp add: VSWR_def np_divide_def)

lemma cmod_Gamma_L_lt_1:
  assumes "0 < RL" "0 < Z0"
  shows "cmod ((ZL RL XL - complex_of_real Z0) / (ZL RL XL + complex_of_real Z0)) < 1"
proof -
  have nz: "ZL RL XL + complex_of_real Z0 \<noteq> 0"
    using assms by (intro ZL_plus_nonzero) simp
  have "(RL - Z0)\<^sup>2 < (RL + Z0)\<^sup>2"
  proof -
    have "(RL + Z0)\<^sup>2 - (RL - Z0)\<^sup>2 = 4 * (RL * Z0)" by (simp add: power2_eq_square algebra_simps)
    moreover have "0 < RL * Z0" using assms by simp
    ultimately show ?thesis by linarith
  qed
  then have "(RL - Z0)\<^sup>2 + XL\<^sup>2 < (RL + Z0)\<^sup>2 + XL\<^sup>2" by simp
  then have "sqrt ((RL - Z0)\<^sup>2 + XL\<^sup>2) < sqrt ((RL + Z0)\<^sup>2 + XL\<^sup>2)" by simp
  then have "cmod (ZL RL XL - complex_of_real Z0) < cmod (ZL RL XL + complex_of_real Z0)"
    by (simp add: cmod_def)
  then show ?thesis using nz by (simp add: norm_divide)
qed

lemma VSWR_lt_1:
  assumes "cmod g < 1"
  shows "VSWR g = Finite ((1 + cmod g) / (1 - cmod g))" and "1 \<le> (1 + cmod g) / (1 - cmod g)"
  using assms by (simp_all add: VSWR_def np_divide_def field_simps)

lemma Gamma_after_nth:
  assumes "0 < Z0" "0 < RL" "i < 501"
  shows "\<exists>G. Gamma_after fc Z0 er RL XL = Inr G \<and> length G = 501 \<and>
           G ! i = exp (- 2 * (gamma fc er ! i * complex_of_real (lambda4_length fc er))) *
             ((ZL RL XL - complex_of_real (Zt Z0 RL XL)) / (ZL RL XL + complex_of_real (Zt Z0 RL XL)))"
  using assms(3) by (simp add: Gamma_after_eq [OF assms(1,2)] length_gamma)

lemma cmod_after:
  assumes "i < 501"
  shows "cmod (exp (- 2 * (gamma fc er ! i * complex_of_real d)) * x) = cmod x"
  unfolding nth_gamma [OF assms] by (simp only: norm_mult cmod_rotation mult_1)

lemma Zt_real: "0 < Z0 \<Longrightarrow> 0 < RL \<Longrightarrow> Zt Z0 RL 0 = sqrt Z0 * sqrt RL"
  by (simp add: Zt_def ZL_def real_sqrt_mult)

lemma quarter_wave_ineq:
  fixes a b :: real
  assumes "0 < a" "0 < b" "a \<noteq> b"
  shows "\<bar>b * b - a * b\<bar> / \<bar>b * b + a * b\<bar> < \<bar>b * b - a * a\<bar> / \<bar>b * b + a * a\<bar>"
proof -
  have d: "0 < \<bar>b - a\<bar>" using assms(3) by simp
  have n1: "\<bar>b * b - a * b\<bar> = b * \<bar>b - a\<bar>"
  proof -
    have "b * b - a * b = b * (b - a)" by (simp add: algebra_simps)
    then show ?thesis using assms(2) by (simp add: abs_mult)
  qed
  have d1: "\<bar>b * b + a * b\<bar> = b * (a + b)"
  proof -
    have "b * b + a * b = b * (a + b)" by (simp add: algebra_simps)
    moreover have "0 \<le> b * (a + b)" using assms by simp
    ultimately show ?thesis by simp
  qed
  have n2: "\<bar>b * b - a * a\<bar> = \<bar>b - a\<bar> * (a + b)"
  proof -
    have "b * b - a * a = (b - a) * (a + b)" by (simp add: algebra_simps)
    then show ?thesis using assms by (simp add: abs_mult)
  qed
  have d2: "\<bar>b * b + a * a\<bar> = a * a + b * b" by simp
  have l: "b * \<bar>b - a\<bar> / (b * (a + b)) = \<bar>b - a\<bar> / (a + b)"
    using assms(2) by simp
  have p: "0 < a * a + b * b" using assms by (simp add: add_pos_pos)
  have "a * a + b * b < (a + b) * (a + b)"
  proof -
    have "(a + b) * (a + b) - (a * a + b * b) = 2 * (a * b)" by (simp add: algebra_simps)
    moreover have "0 < a * b" using assms by simp
    ultimately show ?thesis by linarith
  qed
  then have "\<bar>b - a\<bar> * (a * a + b * b) < \<bar>b - a\<bar> * ((a + b) * (a + b))"
    using d by simp
  then have "\<bar>b - a\<bar> / (a + b) < \<bar>b - a\<bar> * (a + b) / (a * a + b * b)"
    using assms p by (simp add: field_simps)
  then show ?thesis unfolding n1 d1 n2 d2 l .
qed

lemma quotient_cancel:
  fixes a b c :: real
  assumes "c \<noteq> 0"
  shows "a / c / (b / c) = a / b"
  using assms by simp

lemma sqrt_3750_bounds: "6123 / 100 < sqrt 3750" "sqrt 3750 < 6124 / 100"
proof -
  show "6123 / 100 < sqrt 3750" by (rule real_less_rsqrt) (simp add: power2_eq_square)
  show "sqrt 3750 < 6124 / 100" by (rule real_less_lsqrt) (simp_all add: power2_eq_square)
qed






section \<open>Properties\<close>

subsection \<open>Velocity, wavelength and the sweep\<close>

text \<open>
  Claim C7. For a permittivity of at least 1 and a positive centre frequency, the phase
  velocity is \<open>3e8 / sqrt er\<close> and the centre wavelength is the phase velocity divided by
  the centre frequency in Hz (the widget gives it in GHz). The velocity is positive, at
  most \<open>3e8\<close>, and its square times the permittivity is the square of \<open>3e8\<close>.
\<close>

theorem phase_velocity_and_wavelength:
  assumes "1 \<le> er" "0 < fc"
  shows "vp er = 300000000 / sqrt er \<and>
         lambda_c fc er = vp er / (fc * 1000000000) \<and>
         0 < vp er \<and> vp er \<le> 300000000 \<and>
         (vp er)\<^sup>2 * er = 300000000\<^sup>2 \<and>
         lambda_c fc er * (fc * 1000000000) = vp er"
proof -
  have r: "1 \<le> sqrt er" using assms(1) by simp
  have "vp er = 300000000 / sqrt er" by (simp add: vp_def)
  moreover have "lambda_c fc er = vp er / (fc * 1000000000)" by (simp add: lambda_c_def)
  moreover have "0 < vp er" using assms(1) by (simp add: vp_def)
  moreover have "vp er \<le> 300000000" using r by (simp add: vp_def field_simps)
  moreover have "(vp er)\<^sup>2 * er = 300000000\<^sup>2"
    using assms(1) by (simp add: vp_def power_divide)
  moreover have "lambda_c fc er * (fc * 1000000000) = vp er"
    using assms(2) by (simp add: lambda_c_def)
  ultimately show ?thesis by blast
qed

theorem phase_velocity_and_wavelength_witness:
  "(1::real) \<le> 4 \<and> (0::real) < 12 / 5 \<and> vp 4 = 150000000 \<and> lambda_c (12 / 5) 4 = 1 / 16"
  using phase_velocity_and_wavelength [of 4 "12 / 5"] by simp

text \<open>
  Claim C8. For every centre frequency the sweep has exactly 501 samples, strictly
  increasing, from \<open>fc - 1\<close> GHz to \<open>fc + 1\<close> GHz; the centre index is 250, the sample there
  is \<open>fc\<close> itself, and it lies midway between the first and the last sample. The summary
  values are read at this index.
\<close>

theorem frequency_sweep:
  "length (f fc) = 501 \<and> sorted_wrt (<) (f fc) \<and>
   hd (f fc) = 1000000000 * (fc - 1) \<and> last (f fc) = 1000000000 * (fc + 1) \<and>
   center_idx fc = 250 \<and> f fc ! center_idx fc = 1000000000 * fc \<and>
   f fc ! center_idx fc - hd (f fc) = last (f fc) - f fc ! center_idx fc"
proof -
  have ne: "f fc \<noteq> []" using length_f [of fc] by auto
  have h: "hd (f fc) = 1000000000 * (fc - 1)"
    using nth_f [of 0 fc] by (simp add: hd_conv_nth [OF ne])
  have l: "last (f fc) = 1000000000 * (fc + 1)"
    using nth_f [of 500 fc] by (simp add: last_conv_nth [OF ne] length_f)
  show ?thesis
    by (simp add: length_f sorted_f h l center_idx_eq f_center)
qed

theorem frequency_sweep_witness:
  "length (f (12 / 5)) = 501 \<and> hd (f (12 / 5)) = 1400000000 \<and>
   last (f (12 / 5)) = 3400000000 \<and> f (12 / 5) ! center_idx (12 / 5) = 2400000000"
  using frequency_sweep [of "12 / 5"] by auto

subsection \<open>Load reflection coefficient\<close>

text \<open>
  Claim C5. For every combination of inputs that the widgets deliver, the load reflection
  coefficient is the single complex number \<open>(ZL - Z0) / (ZL + Z0)\<close> (the division does not
  raise), and the load network holds this same value at every sample of the sweep.
\<close>

theorem load_reflection_coefficient:
  assumes "widget_ranges fc Z0 er RL XL"
  shows "s11 Z0 RL XL = Inr ((ZL RL XL - complex_of_real Z0) / (ZL RL XL + complex_of_real Z0)) \<and>
         load fc Z0 RL XL =
           Inr \<lparr>s = replicate (length (f fc))
                     ((ZL RL XL - complex_of_real Z0) / (ZL RL XL + complex_of_real Z0)),
                z0 = Z0\<rparr>"
proof -
  have "0 < RL + Z0" using assms by (simp add: widget_ranges_def)
  then have "s11 Z0 RL XL = Inr ((ZL RL XL - complex_of_real Z0) / (ZL RL XL + complex_of_real Z0))"
    by (intro s11_Inr ZL_plus_nonzero)
  then show ?thesis by (simp add: load_def)
qed

theorem load_reflection_coefficient_witness:
  "widget_ranges (12 / 5) 50 1 75 50 \<and>
   s11 50 75 50 = Inr ((ZL 75 50 - complex_of_real 50) / (ZL 75 50 + complex_of_real 50)) \<and>
   load (12 / 5) 50 75 50 =
     Inr \<lparr>s = replicate (length (f (12 / 5)))
               ((ZL 75 50 - complex_of_real 50) / (ZL 75 50 + complex_of_real 50)),
          z0 = 50\<rparr>"
proof -
  have w: "widget_ranges (12 / 5) 50 1 75 50" by (simp add: widget_ranges_def)
  show ?thesis using w load_reflection_coefficient [OF w] by simp
qed

subsection \<open>Transformer design\<close>

text \<open>
  Claim C6. For valid inputs the transformer impedance is the real number
  \<open>sqrt (Z0 * |ZL|)\<close>, with \<open>|ZL| = sqrt (RL^2 + XL^2)\<close>, and the transformer length is a
  quarter of the centre wavelength: both are closed expressions of the inputs. The
  transformer line is built with this impedance, and at the centre sample its electrical
  length is \<open>j * pi / 2\<close>, a quarter wave.
\<close>

theorem transformer_design:
  assumes "0 < Z0" "0 < RL" "1 \<le> er" "0 < fc"
  shows "Zt Z0 RL XL = sqrt (Z0 * sqrt (RL\<^sup>2 + XL\<^sup>2)) \<and> 0 < Zt Z0 RL XL \<and>
         lambda4_length fc er = lambda_c fc er / 4 \<and>
         z02 (transformer fc Z0 er RL XL) = Zt Z0 RL XL \<and>
         gamma fc er ! center_idx fc * complex_of_real (lambda4_length fc er) =
           \<i> * complex_of_real (pi / 2)"
proof -
  have "Zt Z0 RL XL = sqrt (Z0 * sqrt (RL\<^sup>2 + XL\<^sup>2))"
    by (simp add: Zt_def cmod_def)
  moreover have "0 < Zt Z0 RL XL" using assms by (simp add: Zt_pos)
  moreover have "lambda4_length fc er = lambda_c fc er / 4" by (simp add: lambda4_length_def)
  moreover have "z02 (transformer fc Z0 er RL XL) = Zt Z0 RL XL"
    by (simp add: transformer_def DefinedGammaZ0_line_def)
  moreover have "gamma fc er ! center_idx fc * complex_of_real (lambda4_length fc er) =
           \<i> * complex_of_real (pi / 2)"
    unfolding center_idx_eq using assms by (intro quarter_wave) simp_all
  ultimately show ?thesis by blast
qed

theorem transformer_design_witness:
  "(0::real) < 50 \<and> (0::real) < 75 \<and> (1::real) \<le> 1 \<and> (0::real) < 12 / 5 \<and>
   Zt 50 75 0 = sqrt 3750 \<and> lambda4_length (12 / 5) 1 = lambda_c (12 / 5) 1 / 4 \<and>
   z02 (transformer (12 / 5) 50 1 75 0) = Zt 50 75 0"
  using transformer_design [of 50 75 1 "12 / 5" 0] by simp

subsection \<open>Before matching\<close>

text \<open>
  Claim C2. For valid inputs, every sample \<open>i\<close> of the sweep and every line length \<open>l\<close>,
  the reflection coefficient of the cascade of the line with the load is
  \<open>Gamma_L * exp (- 2 * theta_i)\<close>, where \<open>theta_i = gamma_i * l\<close>,
  \<open>gamma_i = j * 2 * pi * f_i / vp\<close> and \<open>Gamma_L = (ZL - Z0) / (ZL + Z0)\<close>.
\<close>

theorem Gamma_before_line_transform:
  assumes "0 < RL" "0 < Z0" "i < length (f fc)" "0 < er"
  shows "\<exists>G. Gamma_before fc Z0 er RL XL l = Inr G \<and> length G = length (f fc) \<and>
           G ! i = (ZL RL XL - complex_of_real Z0) / (ZL RL XL + complex_of_real Z0) *
                   exp (- 2 * (gamma fc er ! i * complex_of_real l)) \<and>
           gamma fc er ! i = \<i> * complex_of_real (2 * pi * (f fc ! i) / vp er)"
proof -
  have i: "i < 501" using assms(3) by (simp add: length_f)
  have "s11 Z0 RL XL = Inr ((ZL RL XL - complex_of_real Z0) / (ZL RL XL + complex_of_real Z0))"
    using assms(1,2) by (rule s11_valid)
  from Gamma_before_nth [OF this i, of fc er l] show ?thesis
    unfolding nth_gamma [OF i] length_f by blast
qed

theorem Gamma_before_line_transform_witness:
  "(0::real) < 75 \<and> (0::real) < 50 \<and> 250 < length (f (12 / 5)) \<and> (0::real) < 1 \<and>
   (\<exists>G. Gamma_before (12 / 5) 50 1 75 0 (1 / 32) = Inr G \<and> length G = length (f (12 / 5)) \<and>
      G ! 250 = (ZL 75 0 - complex_of_real 50) / (ZL 75 0 + complex_of_real 50) *
                exp (- 2 * (gamma (12 / 5) 1 ! 250 * complex_of_real (1 / 32))))"
proof -
  have i: "250 < length (f (12 / 5))" by (simp add: length_f)
  have "(0::real) < 75" "(0::real) < 50" "(0::real) < 1" by simp_all
  from Gamma_before_line_transform [OF this(1,2) i this(3), of 0 "1 / 32"] i
  show ?thesis by auto
qed

text \<open>
  Claim C4. For a real load and any line length, the magnitude of the reflection
  coefficient before matching is \<open>|RL - Z0| / |RL + Z0|\<close> at every sample of the sweep,
  whatever the length. When the load equals \<open>Z0\<close> the coefficient is 0 and the VSWR is 1
  at every sample.
\<close>

theorem Gamma_before_flat:
  assumes "0 < RL" "0 < Z0" "i < length (f fc)" "0 < er"
  shows "\<exists>G V. Gamma_before fc Z0 er RL 0 l = Inr G \<and> VSWR_before fc Z0 er RL 0 l = Inr V \<and>
           cmod (G ! i) = \<bar>RL - Z0\<bar> / \<bar>RL + Z0\<bar> \<and>
           (RL = Z0 \<longrightarrow> G ! i = 0 \<and> V ! i = Finite 1)"
proof -
  have i: "i < 501" using assms(3) by (simp add: length_f)
  obtain G where G: "Gamma_before fc Z0 er RL 0 l = Inr G" "length G = 501"
    "G ! i = (ZL RL 0 - complex_of_real Z0) / (ZL RL 0 + complex_of_real Z0) *
        exp (- 2 * (\<i> * complex_of_real (2 * pi * (f fc ! i) / vp er) * complex_of_real l))"
    using Gamma_before_nth [OF s11_valid [OF assms(1,2)] i] by blast
  have V: "VSWR_before fc Z0 er RL 0 l = Inr (map VSWR G)"
    by (simp add: VSWR_before_def G(1))
  have m: "cmod (G ! i) = \<bar>RL - Z0\<bar> / \<bar>RL + Z0\<bar>"
    unfolding G(3) cmod_before by (rule cmod_Gamma_L_real)
  have z: "G ! i = 0" if "RL = Z0"
  proof -
    have "cmod (G ! i) = 0" unfolding m using that by simp
    then show ?thesis by simp
  qed
  have "map VSWR G ! i = Finite 1" if "RL = Z0"
    using z [OF that] i G(2) by (simp add: VSWR_zero)
  with G(1) V m z show ?thesis by blast
qed

theorem Gamma_before_flat_witness:
  "(0::real) < 50 \<and> 250 < length (f (12 / 5)) \<and> (0::real) < 1 \<and>
   (\<exists>G V. Gamma_before (12 / 5) 50 1 50 0 (1 / 32) = Inr G \<and>
      VSWR_before (12 / 5) 50 1 50 0 (1 / 32) = Inr V \<and>
      cmod (G ! 250) = 0 \<and> G ! 250 = 0 \<and> V ! 250 = Finite 1)"
proof -
  have i: "250 < length (f (12 / 5))" by (simp add: length_f)
  have "(0::real) < 50" "(0::real) < 1" by simp_all
  from Gamma_before_flat [OF this(1) this(1) i this(2), of "1 / 32"] i
  show ?thesis by auto
qed

text \<open>
  Claim C10. For inputs within the ranges of the widgets the divisor \<open>ZL + Z0\<close> is not
  zero, the load reflection coefficient has magnitude below 1, and so at every sample of
  the sweep \<open>1 - |Gamma_before|\<close> is positive: the division of the VSWR meets no zero
  divisor, and the VSWR before matching is a finite number, at least 1.
\<close>

theorem VSWR_before_well_defined:
  assumes "widget_ranges fc Z0 er RL XL" "i < length (f fc)"
  shows "ZL RL XL + complex_of_real Z0 \<noteq> 0 \<and>
         (\<exists>g G V v. s11 Z0 RL XL = Inr g \<and> cmod g < 1 \<and>
            Gamma_before fc Z0 er RL XL l = Inr G \<and> 0 < 1 - cmod (G ! i) \<and>
            \<not> divide_by_zero_encountered (1 + cmod (G ! i)) (1 - cmod (G ! i)) \<and>
            VSWR_before fc Z0 er RL XL l = Inr V \<and> V ! i = Finite v \<and> 1 \<le> v)"
proof -
  have pos: "0 < RL" "0 < Z0" using assms(1) by (simp_all add: widget_ranges_def)
  have i: "i < 501" using assms(2) by (simp add: length_f)
  define g where "g = (ZL RL XL - complex_of_real Z0) / (ZL RL XL + complex_of_real Z0)"
  have nz: "ZL RL XL + complex_of_real Z0 \<noteq> 0"
    using pos by (intro ZL_plus_nonzero) simp
  have sg: "s11 Z0 RL XL = Inr g" unfolding g_def using pos by (rule s11_valid)
  have g1: "cmod g < 1" unfolding g_def using pos by (rule cmod_Gamma_L_lt_1)
  obtain G where G: "Gamma_before fc Z0 er RL XL l = Inr G" "length G = 501"
    "G ! i = g * exp (- 2 * (\<i> * complex_of_real (2 * pi * (f fc ! i) / vp er) * complex_of_real l))"
    using Gamma_before_nth [OF sg i] by blast
  have m: "cmod (G ! i) < 1" unfolding G(3) cmod_before by (rule g1)
  have V: "VSWR_before fc Z0 er RL XL l = Inr (map VSWR G)"
    by (simp add: VSWR_before_def G(1))
  have Vi: "map VSWR G ! i = Finite ((1 + cmod (G ! i)) / (1 - cmod (G ! i)))"
    using i G(2) VSWR_lt_1(1) [OF m] by simp
  have d: "\<not> divide_by_zero_encountered (1 + cmod (G ! i)) (1 - cmod (G ! i))"
    using m by (simp add: divide_by_zero_encountered_def)
  from nz sg g1 G(1) m d V Vi VSWR_lt_1(2) [OF m] show ?thesis by auto
qed

theorem VSWR_before_well_defined_witness:
  "widget_ranges (12 / 5) 500 1 (1 / 10) 0 \<and> 250 < length (f (12 / 5)) \<and>
   ZL (1 / 10) 0 + complex_of_real 500 \<noteq> 0 \<and>
   (\<exists>g G V v. s11 500 (1 / 10) 0 = Inr g \<and> cmod g < 1 \<and>
      Gamma_before (12 / 5) 500 1 (1 / 10) 0 (1 / 32) = Inr G \<and> 0 < 1 - cmod (G ! 250) \<and>
      VSWR_before (12 / 5) 500 1 (1 / 10) 0 (1 / 32) = Inr V \<and> V ! 250 = Finite v \<and> 1 \<le> v)"
proof -
  have w: "widget_ranges (12 / 5) 500 1 (1 / 10) 0" by (simp add: widget_ranges_def)
  have i: "250 < length (f (12 / 5))" by (simp add: length_f)
  from VSWR_before_well_defined [OF w i, of "1 / 32"] w i
  show ?thesis by blast
qed

subsection \<open>After matching\<close>

text \<open>
  Claim C3. For a real load different from \<open>Z0\<close> (and valid inputs), the magnitude of
  the reflection coefficient at the centre index is strictly smaller after matching than
  before matching, whatever the length of the line before matching.
\<close>

theorem matching_reduces_reflection:
  assumes "0 < Z0" "0 < RL" "RL \<noteq> Z0" "0 < er" "0 < fc"
  shows "\<exists>Gb Ga. Gamma_before fc Z0 er RL 0 l = Inr Gb \<and> Gamma_after fc Z0 er RL 0 = Inr Ga \<and>
           cmod (Ga ! center_idx fc) < cmod (Gb ! center_idx fc)"
proof -
  have i: "(250::nat) < 501" by simp
  obtain Gb where Gb: "Gamma_before fc Z0 er RL 0 l = Inr Gb"
    "Gb ! 250 = (ZL RL 0 - complex_of_real Z0) / (ZL RL 0 + complex_of_real Z0) *
        exp (- 2 * (\<i> * complex_of_real (2 * pi * (f fc ! 250) / vp er) * complex_of_real l))"
    using Gamma_before_nth [OF s11_valid [OF assms(2,1)] i] by blast
  obtain Ga where Ga: "Gamma_after fc Z0 er RL 0 = Inr Ga"
    "Ga ! 250 = exp (- 2 * (gamma fc er ! 250 * complex_of_real (lambda4_length fc er))) *
        ((ZL RL 0 - complex_of_real (Zt Z0 RL 0)) / (ZL RL 0 + complex_of_real (Zt Z0 RL 0)))"
    using Gamma_after_nth [OF assms(1,2) i] by blast
  have mb: "cmod (Gb ! 250) = \<bar>RL - Z0\<bar> / \<bar>RL + Z0\<bar>"
    unfolding Gb(2) cmod_before by (rule cmod_Gamma_L_real)
  have ma: "cmod (Ga ! 250) = \<bar>RL - Zt Z0 RL 0\<bar> / \<bar>RL + Zt Z0 RL 0\<bar>"
    unfolding Ga(2) cmod_after [OF i] by (rule cmod_Gamma_L_real)
  have a: "0 < sqrt Z0" and b: "0 < sqrt RL" and ab: "sqrt Z0 \<noteq> sqrt RL"
    using assms by simp_all
  have sq: "sqrt Z0 * sqrt Z0 = Z0" "sqrt RL * sqrt RL = RL"
    using assms by simp_all
  have "cmod (Ga ! 250) < cmod (Gb ! 250)"
    unfolding ma mb Zt_real [OF assms(1,2)]
    using quarter_wave_ineq [OF a b ab] unfolding sq .
  then show ?thesis using Gb(1) Ga(1) by (simp add: center_idx_eq)
qed

theorem matching_reduces_reflection_witness:
  "(0::real) < 50 \<and> (0::real) < 75 \<and> (75::real) \<noteq> 50 \<and> (0::real) < 1 \<and> (0::real) < 12 / 5 \<and>
   (\<exists>Gb Ga. Gamma_before (12 / 5) 50 1 75 0 (1 / 32) = Inr Gb \<and>
      Gamma_after (12 / 5) 50 1 75 0 = Inr Ga \<and>
      cmod (Ga ! center_idx (12 / 5)) < cmod (Gb ! center_idx (12 / 5)))"
proof -
  have "(0::real) < 50" "(0::real) < 75" "(75::real) \<noteq> 50" "(0::real) < 1" "(0::real) < 12 / 5"
    by simp_all
  from matching_reduces_reflection [OF this, of "1 / 32"] show ?thesis by simp
qed

text \<open>
  Claim C1, evaluated on the code. In the scenario \<open>fc = 2.4\<close> GHz, \<open>Z0 = 50\<close>, \<open>er = 1\<close>,
  \<open>RL = 75\<close>, \<open>XL = 0\<close> the transformer impedance is \<open>sqrt 3750\<close>, between 61.23 and 61.24.
  The network after matching keeps the reference impedance of the transformer line, so
  its reflection coefficient at the centre index is
  \<open>(sqrt 3750 - 75) / (sqrt 3750 + 75)\<close>, of magnitude above 0.1 and not 0, and the VSWR
  there is \<open>75 / sqrt 3750\<close>, above 1.2 and not 1.
\<close>

theorem scenario_after_matching:
  "Zt 50 75 0 = sqrt 3750 \<and> 6123 / 100 < Zt 50 75 0 \<and> Zt 50 75 0 < 6124 / 100 \<and>
   (\<exists>G V. Gamma_after (12 / 5) 50 1 75 0 = Inr G \<and> VSWR_after (12 / 5) 50 1 75 0 = Inr V \<and>
      G ! center_idx (12 / 5) = complex_of_real ((sqrt 3750 - 75) / (sqrt 3750 + 75)) \<and>
      G ! center_idx (12 / 5) \<noteq> 0 \<and> 1 / 10 < cmod (G ! center_idx (12 / 5)) \<and>
      V ! center_idx (12 / 5) = Finite (75 / sqrt 3750) \<and> 6 / 5 < 75 / sqrt 3750)"
proof -
  define r where "r = sqrt 3750"
  have r: "6123 / 100 < r" "r < 6124 / 100" unfolding r_def by (rule sqrt_3750_bounds)+
  have zt: "Zt 50 75 0 = r" by (simp add: Zt_def ZL_def r_def)
  have i: "(250::nat) < 501" by simp
  obtain G where G: "Gamma_after (12 / 5) 50 1 75 0 = Inr G" "length G = 501"
    "G ! 250 = exp (- 2 * (gamma (12 / 5) 1 ! 250 * complex_of_real (lambda4_length (12 / 5) 1))) *
        ((ZL 75 0 - complex_of_real (Zt 50 75 0)) / (ZL 75 0 + complex_of_real (Zt 50 75 0)))"
    using Gamma_after_nth [of 50 75 250 "12 / 5" 1 0] by auto
  have rot: "exp (- 2 * (gamma (12 / 5) 1 ! 250 * complex_of_real (lambda4_length (12 / 5) 1))) = - 1"
    by (rule quarter_wave_rotation) simp_all
  have "ZL 75 0 - complex_of_real r = complex_of_real (75 - r)"
    and "ZL 75 0 + complex_of_real r = complex_of_real (75 + r)"
    by (simp_all add: ZL_def)
  then have q: "(ZL 75 0 - complex_of_real r) / (ZL 75 0 + complex_of_real r) = complex_of_real ((75 - r) / (75 + r))"
    by (simp only: of_real_divide)
  have e: "- ((75 - r) / (75 + r)) = (r - 75) / (r + 75)"
    by (simp add: add.commute minus_divide_left)
  have "G ! 250 = - 1 * complex_of_real ((75 - r) / (75 + r))"
    unfolding G(3) rot zt q by (rule refl)
  then have "G ! 250 = complex_of_real (- ((75 - r) / (75 + r)))"
    by (simp only: mult_minus1 of_real_minus)
  then have g: "G ! 250 = complex_of_real ((r - 75) / (r + 75))"
    unfolding e .
  have c: "cmod (G ! 250) = (75 - r) / (75 + r)"
  proof -
    have "(r - 75) / (r + 75) < 0" using r by (simp add: field_simps)
    then have "\<bar>(r - 75) / (r + 75)\<bar> = - ((r - 75) / (r + 75))" by (rule abs_of_neg)
    also have "\<dots> = (75 - r) / (75 + r)" by (simp add: add.commute minus_divide_left)
    finally show ?thesis unfolding g norm_of_real .
  qed
  have c1: "1 / 10 < cmod (G ! 250)" unfolding c using r by (simp add: field_simps)
  have c2: "cmod (G ! 250) < 1" unfolding c using r by (simp add: field_simps)
  have nz: "G ! 250 \<noteq> 0" using c1 by auto
  have p: "0 < r" "75 + r \<noteq> 0" using r by simp_all
  have q: "1 + (75 - r) / (75 + r) = 150 / (75 + r)" "1 - (75 - r) / (75 + r) = 2 * r / (75 + r)"
    using p(2) by (simp_all add: divide_simps)
  have "150 / (75 + r) / (2 * r / (75 + r)) = 150 / (2 * r)"
    using p(2) by (rule quotient_cancel)
  also have "\<dots> = 75 / r" by simp
  finally have "(1 + (75 - r) / (75 + r)) / (1 - (75 - r) / (75 + r)) = 75 / r"
    unfolding q .
  then have v: "VSWR (G ! 250) = Finite (75 / r)"
    using VSWR_lt_1(1) [OF c2] unfolding c by simp
  have V: "VSWR_after (12 / 5) 50 1 75 0 = Inr (map VSWR G)"
    by (simp add: VSWR_after_def G(1))
  have Vi: "map VSWR G ! 250 = Finite (75 / r)"
    using v G(2) by simp
  have b: "6 / 5 < 75 / r" using r by (simp add: field_simps)
  show ?thesis
    using zt r G(1) V g nz c1 Vi b unfolding center_idx_eq r_def by auto
qed

subsection \<open>VSWR near total reflection\<close>



end
